theory Spec2Isabelle
  imports Main "HOL-Library.Sublist"
begin

section \<open>Python strings\<close>

text \<open>
  A Python \<open>str\<close> is a sequence of Unicode code points; \<open>len\<close>, \<open>in\<close>, \<open>replace\<close> and
  \<open>lower\<close> all work on code points. A code point is a natural number here, and an ASCII
  literal of the source is written \<open>cps ''...''\<close>.
\<close>

type_synonym codepoint = nat
type_synonym pystr = "codepoint list"

definition cps :: "string \<Rightarrow> pystr" where
  "cps s = map of_char s"

text \<open>\<open>s.startswith(p)\<close>, the test at one position that \<open>in\<close> and \<open>replace\<close> repeat.\<close>

fun startswith :: "pystr \<Rightarrow> pystr \<Rightarrow> bool" where
  "startswith s [] = True"
| "startswith [] (p # ps) = False"
| "startswith (c # s) (p # ps) = (c = p \<and> startswith s ps)"

text \<open>\<open>sub in s\<close>: some position of \<open>s\<close> (the end included, for the empty \<open>sub\<close>) starts
  with \<open>sub\<close>.\<close>

fun str_in :: "pystr \<Rightarrow> pystr \<Rightarrow> bool" where
  "str_in sub [] = (sub = [])"
| "str_in sub (c # s) = (startswith (c # s) sub \<or> str_in sub s)"

text \<open>
  \<open>s.replace(old, new)\<close>: scan from the left; at an occurrence of \<open>old\<close> emit \<open>new\<close> and
  go on after the occurrence, so that the occurrences replaced do not overlap and the text
  emitted is not scanned again. With an empty \<open>old\<close> Python puts \<open>new\<close> before every code
  point and at the end.
\<close>

function replace :: "pystr \<Rightarrow> pystr \<Rightarrow> pystr \<Rightarrow> pystr" where
  "replace [] old new = (if old = [] then new else [])"
| "replace (c # s) old new =
     (if old = [] then new @ c # replace s old new
      else if startswith (c # s) old then new @ replace (drop (length old) (c # s)) old new
      else c # replace s old new)"
  by pat_completeness auto
termination
  by (relation "measure (\<lambda>(s, old, new). length s)") (auto simp: neq_Nil_conv)

section \<open>The two stages of the response pipeline\<close>

text \<open>The list \<open>unsafe_keywords\<close> of \<open>is_content_safe_for_kids\<close>, in the order of the source.\<close>

definition unsafe_keywords :: "pystr list" where
  "unsafe_keywords = map cps
     [''violence'', ''weapon'', ''kill'', ''death'', ''blood'', ''war'', ''fight'',
      ''inappropriate'', ''adult'', ''mature'', ''scary'', ''horror'', ''fear'',
      ''hate'', ''racism'', ''discrimination'', ''bullying'', ''mean'']"

text \<open>
  The dict \<open>replacements\<close> of \<open>make_kid_friendly\<close>. A dict literal with distinct keys
  iterates in the order it is written, so \<open>replacements.items()\<close> is this list of pairs.
\<close>

definition replacements :: "(pystr \<times> pystr) list" where
  "replacements =
     [(cps ''artificial intelligence'', cps ''AI (like a smart computer)''),
      (cps ''algorithm'', cps ''computer instructions''),
      (cps ''machine learning'', cps ''how computers learn''),
      (cps ''neural network'', cps ''computer brain''),
      (cps ''processing'', cps ''thinking''),
      (cps ''generate'', cps ''create''),
      (cps ''sophisticated'', cps ''smart''),
      (cps ''complexity'', cps ''how hard something is''),
      (cps ''analyze'', cps ''look at carefully''),
      (cps ''implement'', cps ''make it work'')]"

text \<open>The \<open>for\<close> loop of \<open>make_kid_friendly\<close>: each item rebinds \<open>result\<close>.\<close>

fun replace_items :: "(pystr \<times> pystr) list \<Rightarrow> pystr \<Rightarrow> pystr" where
  "replace_items [] result = result"
| "replace_items ((complex_word, simple_word) # items) result =
     replace_items items (replace result complex_word simple_word)"

definition make_kid_friendly :: "pystr \<Rightarrow> pystr" where
  "make_kid_friendly response = replace_items replacements response"


subsection \<open>\<open>str.lower\<close>\<close>

text \<open>
  \<open>str.lower\<close> maps every code point through the lowercase mapping of the interpreter's
  Unicode database, which can give several code points for one, and treats the Greek
  capital sigma (U+03A3) by its context: it becomes the final sigma U+03C2 when a cased
  code point precedes it, case-ignorable ones apart, and none follows it in the same
  way, and U+03C3 otherwise. The database is not part of the repository: the mapping of
  the first 256 code points and of the private-use area U+E000..U+F8FF, where every
  literal of the program lives, and the two properties on ASCII are written out; the
  rest is the parameter \<open>ucd\<close>.
\<close>

record unicode_db =
  to_lower_full :: "codepoint \<Rightarrow> pystr"
  is_cased :: "codepoint \<Rightarrow> bool"
  is_case_ignorable :: "codepoint \<Rightarrow> bool"

definition lower_cp :: "unicode_db \<Rightarrow> codepoint \<Rightarrow> pystr" where
  "lower_cp ucd c =
     (if c < 0x80 then (if 0x41 \<le> c \<and> c \<le> 0x5A then [c + 0x20] else [c])
      else if c < 0x100 then
        (if 0xC0 \<le> c \<and> c \<le> 0xDE \<and> c \<noteq> 0xD7 then [c + 0x20] else [c])
      else if 0xE000 \<le> c \<and> c \<le> 0xF8FF then [c]
      else to_lower_full ucd c)"

definition cased :: "unicode_db \<Rightarrow> codepoint \<Rightarrow> bool" where
  "cased ucd c =
     (if c < 0x80 then (0x41 \<le> c \<and> c \<le> 0x5A) \<or> (0x61 \<le> c \<and> c \<le> 0x7A)
      else is_cased ucd c)"

definition case_ignorable :: "unicode_db \<Rightarrow> codepoint \<Rightarrow> bool" where
  "case_ignorable ucd c =
     (if c < 0x80 then c = 0x27 \<or> c = 0x2E \<or> c = 0x3A \<or> c = 0x5E \<or> c = 0x60
      else is_case_ignorable ucd c)"

text \<open>\<open>left\<close> holds the code points before the sigma, the nearest first.\<close>

definition final_sigma :: "unicode_db \<Rightarrow> pystr \<Rightarrow> pystr \<Rightarrow> bool" where
  "final_sigma ucd left right =
     ((case dropWhile (case_ignorable ucd) left of [] \<Rightarrow> False | c # _ \<Rightarrow> cased ucd c) \<and>
      (case dropWhile (case_ignorable ucd) right of [] \<Rightarrow> True | c # _ \<Rightarrow> \<not> cased ucd c))"

fun lower_from :: "unicode_db \<Rightarrow> pystr \<Rightarrow> pystr \<Rightarrow> pystr" where
  "lower_from ucd left [] = []"
| "lower_from ucd left (c # right) =
     (if c = 0x3A3 then [if final_sigma ucd left right then 0x3C2 else 0x3C3]
      else lower_cp ucd c)
     @ lower_from ucd (c # left) right"

definition lower :: "unicode_db \<Rightarrow> pystr \<Rightarrow> pystr" where
  "lower ucd s = lower_from ucd [] s"

text \<open>A database that says nothing beyond what is written out above; it serves for the
  examples, whose texts are ASCII.\<close>

definition plain_db :: unicode_db where
  "plain_db = \<lparr>to_lower_full = (\<lambda>c. [c]), is_cased = (\<lambda>c. False),
                is_case_ignorable = (\<lambda>c. False)\<rparr>"

subsection \<open>The functions of the source\<close>

definition is_content_safe_for_kids :: "unicode_db \<Rightarrow> pystr \<Rightarrow> pystr \<Rightarrow> bool" where
  "is_content_safe_for_kids ucd message response =
     (let combined_text = lower ucd (message @ cps '' '' @ response)
      in \<not> list_ex (\<lambda>keyword. str_in keyword combined_text) unsafe_keywords)"

text \<open>
  The reply that stands in for an unsafe one. After the question mark and a space the
  literal of the source ends in the four code points U+F8FF, U+00FC, U+00A7 and U+00F1.
\<close>

definition fallback_response :: pystr where
  "fallback_response =
     cps ''Let's talk about something more fun! How about we explore how AI helps create cool games or helps robots move around? ''
     @ [0xF8FF, 0xFC, 0xA7, 0xF1]"

text \<open>
  The post-processing of \<open>send_chat_message\<close>, from the reply of the model to the two
  fields \<open>response\<close> and \<open>is_safe\<close> of the record: simplify, classify, substitute.
\<close>

definition sanitize :: "unicode_db \<Rightarrow> pystr \<Rightarrow> pystr \<Rightarrow> pystr \<times> bool" where
  "sanitize ucd message ai_response =
     (let kid_friendly_response = make_kid_friendly ai_response;
          is_safe = is_content_safe_for_kids ucd message kid_friendly_response;
          kid_friendly_response = (if \<not> is_safe then fallback_response else kid_friendly_response)
      in (kid_friendly_response, is_safe))"


section \<open>The message endpoint\<close>

text \<open>
  An exception is a value. \<open>Exception m\<close> is one of the class \<open>Exception\<close> raised by a
  library, with \<open>str(e) = m\<close>. \<open>BaseException n\<close> is one outside that class, named \<open>n\<close>:
  \<open>asyncio.CancelledError\<close>, which an \<open>await\<close> raises when the request is cancelled,
  \<open>KeyboardInterrupt\<close>, \<open>SystemExit\<close>. The detail of the \<open>HTTPException\<close> that the handler
  raises at the end is the f-string \<open>"Failed to process chat message: {str(e)}"\<close>, kept
  as \<open>Failed_to_process e\<close>.
\<close>

datatype exn = Exception pystr | HTTPException nat http_detail | BaseException pystr
and http_detail = Detail pystr | Failed_to_process exn

text \<open>\<open>isinstance(e, Exception)\<close>, which decides whether \<open>except Exception\<close> catches
  \<open>e\<close>; \<open>HTTPException\<close> is a subclass of \<open>Exception\<close>.\<close>

fun isinstance_Exception :: "exn \<Rightarrow> bool" where
  "isinstance_Exception (Exception m) = True"
| "isinstance_Exception (HTTPException status_code detail) = True"
| "isinstance_Exception (BaseException n) = False"

text \<open>A \<open>datetime\<close> is an instant; \<open>isoformat()\<close> of it is the string written to the store.\<close>

datatype tsvalue = Datetime nat | Isoformat nat

record chat_message_create =
  session_id :: pystr
  message :: pystr
  model_provider :: pystr
  model_name :: pystr

record chat_message =
  id' :: pystr
  session_id :: pystr
  message :: pystr
  response :: pystr
  model_provider :: pystr
  model_name :: pystr
  timestamp :: tsvalue
  is_safe :: bool

record chat_session =
  id' :: pystr
  session_name :: pystr
  created_at :: tsvalue
  total_messages :: int

text \<open>
  What \<open>LlmChat(api_key, session_id, system_message).with_model(provider, model)\<close> and
  \<open>send_message(UserMessage(text))\<close> are given, in this order of fields.
\<close>

datatype llm_request = LlmRequest pystr pystr pystr pystr pystr pystr

text \<open>
  The surroundings of one request: the Unicode database of the interpreter, the
  environment variable \<open>EMERGENT_LLM_KEY\<close>, the provider (a reply or an exception), the
  defaults \<open>uuid4()\<close> and \<open>datetime.now(timezone.utc)\<close> of the new record, and whether
  \<open>insert_one\<close> and \<open>update_one\<close> raise.
\<close>

record world =
  unicode_data :: unicode_db
  emergent_llm_key :: "pystr option"
  llm :: "llm_request \<Rightarrow> exn + pystr"
  uuid4 :: pystr
  now_utc :: nat
  insert_one_raises :: "exn option"
  update_one_raises :: "exn option"

text \<open>
  What a request can change: the two collections, the requests sent to the provider so
  far, and what \<open>logger.error\<close> was given.
\<close>

record state =
  chat_messages :: "chat_message list"
  chat_sessions :: "chat_session list"
  llm_requests :: "llm_request list"
  error_log :: "exn list"

definition system_message :: pystr where
  "system_message =
     cps ''You are a friendly AI teacher helping kids aged 8-12 learn about artificial intelligence and how computers work. '' @ [10]
   @ cps ''        '' @ [10]
   @ cps ''        Rules:'' @ [10]
   @ cps ''        1. Use simple, fun language that kids can understand'' @ [10]
   @ cps ''        2. Keep explanations short and engaging'' @ [10]
   @ cps ''        3. Use examples from everyday life (toys, games, school)'' @ [10]
   @ cps ''        4. Always be encouraging and positive'' @ [10]
   @ cps ''        5. If asked about something not suitable for kids, gently redirect to learning topics'' @ [10]
   @ cps ''        6. Make AI concepts sound exciting and magical but also explain them simply'' @ [10]
   @ cps ''        7. Use emojis occasionally to make responses fun'' @ [10]
   @ cps ''        '' @ [10]
   @ cps ''        Remember: You're teaching kids about AI, so make it fun and easy to understand!''"

text \<open>\<open>prepare_for_mongo\<close> on the dict of a record: \<open>timestamp\<close> is its one datetime.\<close>

definition prepare_for_mongo :: "chat_message \<Rightarrow> chat_message" where
  "prepare_for_mongo data =
     (case timestamp data of
        Datetime t \<Rightarrow> data\<lparr>timestamp := Isoformat t\<rparr>
      | Isoformat t \<Rightarrow> data)"

text \<open>\<open>update_one({"id": sid}, {"$inc": {"total_messages": 1}})\<close>: the first session with
  this id gets one message more; with no such session nothing changes.\<close>

fun inc_total_messages :: "pystr \<Rightarrow> chat_session list \<Rightarrow> chat_session list" where
  "inc_total_messages sid [] = []"
| "inc_total_messages sid (d # ds) =
     (if chat_session.id' d = sid then d\<lparr>total_messages := total_messages d + 1\<rparr> # ds
      else d # inc_total_messages sid ds)"

definition llm_request_of :: "pystr \<Rightarrow> chat_message_create \<Rightarrow> llm_request" where
  "llm_request_of api_key input =
     LlmRequest api_key (chat_message_create.session_id input) system_message
       (chat_message_create.model_provider input) (chat_message_create.model_name input)
       (chat_message_create.message input)"

text \<open>The body of the \<open>try\<close>: an exception leaves it with the state reached so far.\<close>

definition send_chat_message_try ::
  "world \<Rightarrow> state \<Rightarrow> chat_message_create \<Rightarrow> (exn + chat_message) \<times> state" where
  "send_chat_message_try w s input =
     (case emergent_llm_key w of
        None \<Rightarrow> (Inl (HTTPException 500 (Detail (cps ''API key not configured''))), s)
      | Some api_key \<Rightarrow>
          if api_key = [] then
            (Inl (HTTPException 500 (Detail (cps ''API key not configured''))), s)
          else
            let request = llm_request_of api_key input;
                s1 = s\<lparr>llm_requests := llm_requests s @ [request]\<rparr>
            in case llm w request of
                 Inl e \<Rightarrow> (Inl e, s1)
               | Inr ai_response \<Rightarrow>
                   let (kid_friendly_response, safe) =
                         sanitize (unicode_data w) (chat_message_create.message input) ai_response;
                       chat_message =
                         \<lparr>chat_message.id' = uuid4 w,
                          session_id = chat_message_create.session_id input,
                          message = chat_message_create.message input,
                          response = kid_friendly_response,
                          model_provider = chat_message_create.model_provider input,
                          model_name = chat_message_create.model_name input,
                          timestamp = Datetime (now_utc w),
                          is_safe = safe\<rparr>;
                       message_data = prepare_for_mongo chat_message
                   in case insert_one_raises w of
                        Some e \<Rightarrow> (Inl e, s1)
                      | None \<Rightarrow>
                          let s2 = s1\<lparr>chat_messages := chat_messages s1 @ [message_data]\<rparr>
                          in case update_one_raises w of
                               Some e \<Rightarrow> (Inl e, s2)
                             | None \<Rightarrow>
                                 (Inr chat_message,
                                  s2\<lparr>chat_sessions :=
                                       inc_total_messages (chat_message_create.session_id input)
                                         (chat_sessions s2)\<rparr>))"

text \<open>
  \<open>except Exception as e\<close>: an exception of the class \<open>Exception\<close> is logged and the 500
  raised in its place; any other one passes through the handler as it is, not logged.
\<close>

definition send_chat_message ::
  "world \<Rightarrow> state \<Rightarrow> chat_message_create \<Rightarrow> (exn + chat_message) \<times> state" where
  "send_chat_message w s input =
     (case send_chat_message_try w s input of
        (Inl e, s') \<Rightarrow>
          if isinstance_Exception e then
            (Inl (HTTPException 500 (Failed_to_process e)), s'\<lparr>error_log := error_log s' @ [e]\<rparr>)
          else (Inl e, s')
      | (Inr chat_message, s') \<Rightarrow> (Inr chat_message, s'))"


subsection \<open>What decides the outcome of a request\<close>

definition key_unconfigured :: "world \<Rightarrow> bool" where
  "key_unconfigured w = (emergent_llm_key w = None \<or> emergent_llm_key w = Some [])"

text \<open>The answer of the provider, when the handler gets as far as asking it.\<close>

definition provider_result :: "world \<Rightarrow> chat_message_create \<Rightarrow> (exn + pystr) option" where
  "provider_result w input =
     (case emergent_llm_key w of
        None \<Rightarrow> None
      | Some api_key \<Rightarrow>
          if api_key = [] then None else Some (llm w (llm_request_of api_key input)))"

text \<open>The exception that ends the body of the \<open>try\<close> once the key is there: the
  provider's, or else that of \<open>insert_one\<close>, or else that of \<open>update_one\<close>.\<close>

definition first_raise :: "world \<Rightarrow> chat_message_create \<Rightarrow> exn option" where
  "first_raise w input =
     (case provider_result w input of
        None \<Rightarrow> None
      | Some (Inl e) \<Rightarrow> Some e
      | Some (Inr ai_response) \<Rightarrow>
          (case insert_one_raises w of Some e \<Rightarrow> Some e | None \<Rightarrow> update_one_raises w))"

text \<open>The record that the handler builds from a reply of the provider.\<close>

definition built_record :: "world \<Rightarrow> chat_message_create \<Rightarrow> pystr \<Rightarrow> chat_message" where
  "built_record w input ai_response =
     \<lparr>chat_message.id' = uuid4 w,
      session_id = chat_message_create.session_id input,
      message = chat_message_create.message input,
      response = fst (sanitize (unicode_data w) (chat_message_create.message input) ai_response),
      model_provider = chat_message_create.model_provider input,
      model_name = chat_message_create.model_name input,
      timestamp = Datetime (now_utc w),
      is_safe = snd (sanitize (unicode_data w) (chat_message_create.message input) ai_response)\<rparr>"

subsection \<open>Example requests\<close>

definition example_world :: world where
  "example_world =
     \<lparr>unicode_data = plain_db,
      emergent_llm_key = Some (cps ''sk-test''),
      llm = (\<lambda>request. Inr (cps ''Computers do processing'')),
      uuid4 = cps ''0b9f6a52-7c1e-4d0a-9d4e-3f2a8c5e1b77'',
      now_utc = 1700000000,
      insert_one_raises = None,
      update_one_raises = None\<rparr>"

text \<open>The same, with a store that refuses the insert.\<close>

definition store_down_world :: world where
  "store_down_world =
     example_world\<lparr>insert_one_raises := Some (Exception (cps ''connection refused''))\<rparr>"

definition example_state :: state where
  "example_state = \<lparr>chat_messages = [], chat_sessions = [], llm_requests = [], error_log = []\<rparr>"

definition example_input :: chat_message_create where
  "example_input =
     \<lparr>chat_message_create.session_id = cps ''s1'',
      chat_message_create.message = cps ''What is AI?'',
      chat_message_create.model_provider = cps ''openai'',
      chat_message_create.model_name = cps ''gpt-5''\<rparr>"

text \<open>The same, with no key in the environment.\<close>

definition no_key_world :: world where
  "no_key_world = example_world\<lparr>emergent_llm_key := None\<rparr>"

text \<open>The same, with the request cancelled while the handler awaits the provider.\<close>

definition cancelled_world :: world where
  "cancelled_world =
     example_world\<lparr>llm := (\<lambda>request. Inl (BaseException (cps ''CancelledError'')))\<rparr>"

section \<open>The simplifier as the specification words it\<close>

text \<open>
  One step of the specification, as a relation between the current text and the next:
  every occurrence of \<open>complexTerm\<close>, found from the left and not overlapping the one
  before it, gives way to \<open>simpleTerm\<close>. Either the term does not occur and the text
  stays, or the text is \<open>gap @ complexTerm @ rest\<close> with no occurrence starting inside
  \<open>gap\<close>, and \<open>rest\<close> is treated in the same way. Code points are compared as they
  are, and nothing is asked of what surrounds an occurrence.
\<close>

inductive every_occurrence_replaced :: "pystr \<Rightarrow> pystr \<Rightarrow> pystr \<Rightarrow> pystr \<Rightarrow> bool" where
  no_occurrence:
    "\<not> str_in complexTerm cur \<Longrightarrow> every_occurrence_replaced complexTerm simpleTerm cur cur"
| leftmost_first:
    "\<not> str_in complexTerm (gap @ butlast complexTerm) \<Longrightarrow>
     every_occurrence_replaced complexTerm simpleTerm rest rest' \<Longrightarrow>
     every_occurrence_replaced complexTerm simpleTerm
       (gap @ complexTerm @ rest) (gap @ simpleTerm @ rest')"

text \<open>The pairs of the table are taken in their order, each on the output of the one
  before.\<close>

inductive simplify :: "(pystr \<times> pystr) list \<Rightarrow> pystr \<Rightarrow> pystr \<Rightarrow> bool" where
  table_done: "simplify [] cur cur"
| table_step:
    "every_occurrence_replaced complexTerm simpleTerm cur cur' \<Longrightarrow>
     simplify table cur' final \<Longrightarrow>
     simplify ((complexTerm, simpleTerm) # table) cur final"

text \<open>
  A cascade: the output of some replacement contains a term that stands earlier in the
  table than the pair just applied. \<open>earlier\<close> holds the terms already passed.
\<close>

fun cascade_in :: "pystr list \<Rightarrow> (pystr \<times> pystr) list \<Rightarrow> pystr \<Rightarrow> bool" where
  "cascade_in earlier [] result = False"
| "cascade_in earlier ((complex_word, simple_word) # items) result =
     (let output = replace result complex_word simple_word
      in list_ex (\<lambda>word. str_in word output) earlier
         \<or> cascade_in (earlier @ [complex_word]) items output)"

definition cascades :: "pystr \<Rightarrow> bool" where
  "cascades t = cascade_in [] replacements t"



section \<open>Substrings and \<open>replace\<close>\<close>

lemma startswith_iff_prefix: "startswith s p \<longleftrightarrow> prefix p s"
  by (induction s p rule: startswith.induct) auto

lemma str_in_iff_sublist: "str_in sub s \<longleftrightarrow> sublist sub s"
  by (induction s) (simp_all add: startswith_iff_prefix sublist_Cons_right)

lemma str_in_iff: "str_in sub s \<longleftrightarrow> (\<exists>p q. s = p @ sub @ q)"
  by (simp add: str_in_iff_sublist sublist_def)

lemma replace_absent:
  "old \<noteq> [] \<Longrightarrow> \<not> str_in old s \<Longrightarrow> replace s old new = s"
  by (induction s) auto

lemma prefix_short: "prefix a (x @ y) \<Longrightarrow> length a \<le> length x \<Longrightarrow> prefix a x"
  by (auto simp: prefix_append dest: prefix_length_le)

lemma replace_at_occurrence:
  "old \<noteq> [] \<Longrightarrow> replace (old @ rest) old new = new @ replace rest old new"
  by (cases old) (simp_all add: startswith_iff_prefix)

lemma not_in_butlast: "old \<noteq> [] \<Longrightarrow> \<not> str_in old (butlast old)"
proof
  assume ne: "old \<noteq> []" and "str_in old (butlast old)"
  then have "sublist old (butlast old)" by (simp add: str_in_iff_sublist)
  then have "length old \<le> length (butlast old)" by (rule sublist_length_le)
  moreover have "length (butlast old) < length old" using ne by (cases old) simp_all
  ultimately show False by arith
qed

lemma last_moved:
  assumes ne: "old \<noteq> []"
  shows "butlast old @ last old # rest = old @ rest"
proof -
  have "(butlast old @ [last old]) @ rest = old @ rest"
    by (simp only: append_butlast_last_id[OF ne])
  then show ?thesis
    by (simp only: append_assoc append_Cons append_Nil)
qed

text \<open>The occurrence that no other one starts before is the one \<open>replace\<close> takes.\<close>

lemma replace_leftmost:
  assumes ne: "old \<noteq> []" and left: "\<not> str_in old (g @ butlast old)"
  shows "replace (g @ old @ rest) old new = g @ new @ replace rest old new"
  using left
proof (induction g)
  case Nil
  show ?case using ne by (simp add: replace_at_occurrence)
next
  case (Cons c g)
  have "\<not> prefix old (c # g @ old @ rest)"
  proof
    assume pfx: "prefix old (c # g @ old @ rest)"
    have "(c # g @ butlast old) @ (last old # rest) = c # g @ old @ rest"
      by (simp only: append_assoc append_Cons last_moved[OF ne])
    with pfx have "prefix old ((c # g @ butlast old) @ (last old # rest))"
      by (simp only:)
    then have "prefix old (c # g @ butlast old)"
      by (rule prefix_short) simp
    then show False using Cons.prems by (simp add: startswith_iff_prefix)
  qed
  moreover have "\<not> str_in old (g @ butlast old)"
    using Cons.prems by simp
  ultimately show ?case
    using ne Cons.IH by (simp add: startswith_iff_prefix)
qed

lemma leftmost_occurrence:
  "old \<noteq> [] \<Longrightarrow> str_in old s \<Longrightarrow>
   \<exists>g rest. s = g @ old @ rest \<and> \<not> str_in old (g @ butlast old)"
proof (induction s)
  case Nil
  then show ?case by simp
next
  case (Cons c s)
  note ne = Cons.prems(1)
  show ?case
  proof (cases "startswith (c # s) old")
    case True
    then obtain rest where "c # s = [] @ old @ rest"
      by (auto simp: startswith_iff_prefix prefix_def)
    moreover have "\<not> str_in old ([] @ butlast old)"
      using not_in_butlast[OF ne] by simp
    ultimately show ?thesis by blast
  next
    case False
    then have "str_in old s" using Cons.prems by simp
    then obtain g rest where g: "s = g @ old @ rest" "\<not> str_in old (g @ butlast old)"
      using Cons.IH ne by blast
    have whole: "c # s = (c # g @ butlast old) @ (last old # rest)"
      by (simp only: append_assoc append_Cons last_moved[OF ne] g(1))
    have "\<not> startswith (c # g @ butlast old) old"
    proof
      assume "startswith (c # g @ butlast old) old"
      then have "prefix old (c # g @ butlast old)" by (simp add: startswith_iff_prefix)
      then have "prefix old ((c # g @ butlast old) @ (last old # rest))"
        by (rule prefix_prefix)
      then have "prefix old (c # s)" using whole by (simp only:)
      then show False using False by (simp add: startswith_iff_prefix)
    qed
    then have "\<not> str_in old ((c # g) @ butlast old)" using g(2) by simp
    moreover have "c # s = (c # g) @ old @ rest" using g(1) by simp
    ultimately show ?thesis by blast
  qed
qed

section \<open>The loop of \<open>make_kid_friendly\<close> against the specification\<close>

lemma replaced_is_replace:
  "every_occurrence_replaced old new s t \<Longrightarrow> old \<noteq> [] \<Longrightarrow> t = replace s old new"
proof (induction rule: every_occurrence_replaced.induct)
  case (no_occurrence complexTerm cur simpleTerm)
  then show ?case by (simp add: replace_absent)
next
  case (leftmost_first complexTerm gap simpleTerm rest rest')
  then show ?case by (simp add: replace_leftmost)
qed

lemma replace_is_replaced:
  "old \<noteq> [] \<Longrightarrow> every_occurrence_replaced old new s (replace s old new)"
proof (induction "length s" arbitrary: s rule: less_induct)
  case less
  note ne = less.prems
  show ?case
  proof (cases "str_in old s")
    case False
    then show ?thesis
      using ne by (simp add: replace_absent every_occurrence_replaced.no_occurrence)
  next
    case True
    then obtain g rest where g: "s = g @ old @ rest" "\<not> str_in old (g @ butlast old)"
      using leftmost_occurrence[OF ne] by blast
    have "length rest < length s" using g(1) ne by (cases old) simp_all
    then have "every_occurrence_replaced old new rest (replace rest old new)"
      using less.hyps ne by blast
    then have "every_occurrence_replaced old new (g @ old @ rest) (g @ new @ replace rest old new)"
      using g(2) by (rule every_occurrence_replaced.leftmost_first[rotated])
    then show ?thesis using g ne by (simp add: replace_leftmost)
  qed
qed

lemma replaced_iff_replace:
  "old \<noteq> [] \<Longrightarrow> every_occurrence_replaced old new s t \<longleftrightarrow> t = replace s old new"
  using replaced_is_replace replace_is_replaced by blast

lemma simplify_iff_replace_items:
  "\<forall>(old, new) \<in> set table. old \<noteq> [] \<Longrightarrow>
   simplify table s t \<longleftrightarrow> t = replace_items table s"
proof (induction table arbitrary: s)
  case Nil
  show ?case by (auto intro: simplify.table_done elim: simplify.cases)
next
  case (Cons item table)
  obtain old new where item: "item = (old, new)" by (cases item)
  have ne: "old \<noteq> []" and rest: "\<forall>(old, new) \<in> set table. old \<noteq> []"
    using Cons.prems item by auto
  have "simplify ((old, new) # table) s t \<longleftrightarrow>
        (\<exists>s'. every_occurrence_replaced old new s s' \<and> simplify table s' t)"
    by (auto intro: simplify.table_step elim: simplify.cases)
  also have "\<dots> \<longleftrightarrow> simplify table (replace s old new) t"
    using replaced_iff_replace[OF ne] by simp
  also have "\<dots> \<longleftrightarrow> t = replace_items table (replace s old new)"
    using Cons.IH[OF rest] .
  finally show ?case using item by simp
qed

lemma replace_items_fold:
  "replace_items items result
     = fold (\<lambda>(complex_word, simple_word) cur. replace cur complex_word simple_word) items result"
  by (induction items arbitrary: result) auto

lemma replacements_nonempty: "\<forall>(old, new) \<in> set replacements. old \<noteq> []"
  by (simp add: replacements_def cps_def)

text \<open>
  C4. For every text \<open>t\<close>, \<open>make_kid_friendly t\<close> is the fold of \<open>replace\<close> over the
  table in its listed order. And the specification's own account of that fold, each
  step replacing every occurrence of the complex term from the left without overlap,
  by plain comparison of code points, and handing its output to the next step, relates
  \<open>t\<close> to exactly one text, the one \<open>make_kid_friendly\<close> returns: the simplifier is
  total and has no error case.
\<close>

theorem make_kid_friendly_is_simplify:
  "make_kid_friendly t
     = fold (\<lambda>(complexTerm, simpleTerm) cur. replace cur complexTerm simpleTerm) replacements t
   \<and> (simplify replacements t t' \<longleftrightarrow> t' = make_kid_friendly t)"
  unfolding make_kid_friendly_def
  using simplify_iff_replace_items[OF replacements_nonempty] replace_items_fold by simp

theorem make_kid_friendly_is_simplify_witness:
  "simplify replacements (cps ''how an algorithm works'')
     (cps ''how an computer instructions works'')"
  using make_kid_friendly_is_simplify
    [of "cps ''how an algorithm works''" "cps ''how an computer instructions works''"]
  by (simp add: make_kid_friendly_def replacements_def cps_def)

section \<open>The classifier\<close>

text \<open>
  C1. For all strings \<open>u\<close> and \<open>r\<close>, \<open>is_content_safe_for_kids\<close> returns false exactly when
  one of the 18 keywords of its list is a substring of the lowercased \<open>u + " " + r\<close>, and
  true otherwise.
\<close>

theorem is_content_safe_for_kids_iff:
  "length unsafe_keywords = 18 \<and>
   (is_content_safe_for_kids ucd u r = False \<longleftrightarrow>
      (\<exists>keyword \<in> set unsafe_keywords. \<exists>p q. lower ucd (u @ cps '' '' @ r) = p @ keyword @ q))"
  by (simp add: is_content_safe_for_kids_def Let_def list_ex_iff str_in_iff unsafe_keywords_def)


section \<open>Lowercasing around the separating space\<close>

lemma space_plain: "\<not> case_ignorable ucd 32" "\<not> cased ucd 32" "lower_cp ucd 32 = [32]"
  by (simp_all add: case_ignorable_def cased_def lower_cp_def)

lemma right_scan_space:
  "(case dropWhile (case_ignorable ucd) (x @ 32 # r) of [] \<Rightarrow> True | c # _ \<Rightarrow> \<not> cased ucd c)
   = (case dropWhile (case_ignorable ucd) x of [] \<Rightarrow> True | c # _ \<Rightarrow> \<not> cased ucd c)"
  by (induction x) (simp_all add: space_plain)

lemma left_scan_space:
  "(case dropWhile (case_ignorable ucd) (x @ 32 # l) of [] \<Rightarrow> False | c # _ \<Rightarrow> cased ucd c)
   = (case dropWhile (case_ignorable ucd) x of [] \<Rightarrow> False | c # _ \<Rightarrow> cased ucd c)"
  by (induction x) (simp_all add: space_plain)

lemma final_sigma_right_space:
  "final_sigma ucd left (x @ 32 # r) = final_sigma ucd left x"
  by (simp only: final_sigma_def right_scan_space)

lemma final_sigma_left_space:
  "final_sigma ucd (x @ 32 # l) right = final_sigma ucd x right"
  by (simp only: final_sigma_def left_scan_space)

lemma lower_from_left_space:
  "lower_from ucd (x @ 32 # l) s = lower_from ucd x s"
proof (induction s arbitrary: x)
  case Nil
  show ?case by simp
next
  case (Cons c s)
  have "lower_from ucd ((c # x) @ 32 # l) s = lower_from ucd (c # x) s"
    by (rule Cons.IH)
  then show ?case by (simp add: final_sigma_left_space)
qed

lemma lower_from_space:
  "lower_from ucd left (u @ 32 # r) = lower_from ucd left u @ 32 # lower_from ucd [] r"
proof (induction u arbitrary: left)
  case Nil
  have "lower_from ucd ([] @ 32 # left) r = lower_from ucd [] r"
    by (rule lower_from_left_space)
  then show ?case by (simp add: space_plain)
next
  case (Cons c u)
  then show ?case by (simp add: final_sigma_right_space)
qed

lemma lower_combined:
  "lower ucd (u @ cps '' '' @ r) = lower ucd u @ 32 # lower ucd r"
  by (simp add: lower_def cps_def lower_from_space)

lemma str_in_append_left: "str_in k a \<Longrightarrow> str_in k (a @ b)"
  by (auto simp: str_in_iff) (metis append_assoc)

lemma str_in_append_right: "str_in k b \<Longrightarrow> str_in k (a @ b)"
  by (auto simp: str_in_iff) (metis append_assoc)

lemma fallback_has_no_keyword:
  "\<not> list_ex (\<lambda>keyword. str_in keyword (lower ucd fallback_response)) unsafe_keywords"
  by (simp add: fallback_response_def unsafe_keywords_def cps_def lower_def lower_cp_def)

section \<open>The pipeline\<close>

lemma sanitize_unfold:
  "sanitize ucd u r =
     (if is_content_safe_for_kids ucd u (make_kid_friendly r) then (make_kid_friendly r, True)
      else (fallback_response, False))"
  by (simp add: sanitize_def Let_def)

text \<open>
  C2. For every message and raw reply: when the classifier rejects the simplified text,
  the delivered text is the one fixed fallback string, whatever the inputs; when it
  accepts, the delivered text is the simplified text; and the flag returned is the
  classifier's answer in both cases.
\<close>

theorem sanitize_cases:
  "sanitize ucd u r =
     (if is_content_safe_for_kids ucd u (make_kid_friendly r) then (make_kid_friendly r, True)
      else (fallback_response, False))"
  by (rule sanitize_unfold)

text \<open>
  C3. The two stages run in this order: the reply is simplified first, and the safety
  decision is the classifier's on the message and the simplified text. It is not the
  classifier's on the raw reply: for the raw reply \<open>meanalyze\<close> the two differ.
\<close>

theorem classifier_sees_simplified:
  "snd (sanitize ucd u r) = is_content_safe_for_kids ucd u (make_kid_friendly r)
   \<and> snd (sanitize ucd [] (cps ''meanalyze'')) \<noteq> is_content_safe_for_kids ucd [] (cps ''meanalyze'')"
  by (simp add: sanitize_def make_kid_friendly_def replacements_def cps_def
      is_content_safe_for_kids_def lower_def lower_cp_def unsafe_keywords_def Let_def)

text \<open>
  C6. Scenario 5: for the message \<open>What is AI?\<close> and the reply
  \<open>AI is a kind of processing that helps computers\<close> the delivered text contains
  \<open>thinking\<close>, which replaced \<open>processing\<close>, and the flag is true.
\<close>

theorem scenario_5:
  "sanitize ucd (cps ''What is AI?'') (cps ''AI is a kind of processing that helps computers'')
     = (cps ''AI is a kind of thinking that helps computers'', True)
   \<and> str_in (cps ''thinking'')
        (fst (sanitize ucd (cps ''What is AI?'') (cps ''AI is a kind of processing that helps computers'')))"
  by (simp add: sanitize_def make_kid_friendly_def replacements_def cps_def
      is_content_safe_for_kids_def lower_def lower_cp_def unsafe_keywords_def)

text \<open>
  C9. For every message and raw reply, no keyword of the list is a substring of the
  lowercased delivered text: an accepted text is the end of the combined text in which
  the classifier found no keyword, and the fallback string has none in its lowercase
  form.
\<close>

theorem delivered_text_has_no_keyword:
  "\<not> (\<exists>keyword \<in> set unsafe_keywords. \<exists>p q. lower ucd (fst (sanitize ucd u r)) = p @ keyword @ q)"
proof -
  have "\<not> list_ex (\<lambda>keyword. str_in keyword (lower ucd (fst (sanitize ucd u r)))) unsafe_keywords"
  proof (cases "is_content_safe_for_kids ucd u (make_kid_friendly r)")
    case True
    then have "\<not> list_ex (\<lambda>keyword. str_in keyword
                 (lower ucd u @ 32 # lower ucd (make_kid_friendly r))) unsafe_keywords"
      by (simp add: is_content_safe_for_kids_def lower_combined)
    then have "\<not> list_ex (\<lambda>keyword. str_in keyword (lower ucd (make_kid_friendly r)))
                 unsafe_keywords"
      using str_in_append_right[of _ "lower ucd (make_kid_friendly r)" "lower ucd u @ [32]"]
      by (auto simp: list_ex_iff)
    then show ?thesis using True by (simp add: sanitize_unfold)
  next
    case False
    then show ?thesis by (simp add: sanitize_unfold fallback_has_no_keyword)
  qed
  then show ?thesis by (simp add: list_ex_iff str_in_iff)
qed

text \<open>
  C10. For every message whose lowercase form has a keyword of the list as a substring,
  and for every raw reply, the flag is false and the delivered text is the fallback
  string: the message alone decides, and the reply has no part in what is delivered.
\<close>

theorem unsafe_message_forces_fallback:
  assumes "\<exists>keyword \<in> set unsafe_keywords. \<exists>p q. lower ucd u = p @ keyword @ q"
  shows "sanitize ucd u r = (fallback_response, False)"
proof -
  have "list_ex (\<lambda>keyword. str_in keyword (lower ucd u)) unsafe_keywords"
    using assms by (simp add: list_ex_iff str_in_iff)
  then have "list_ex (\<lambda>keyword. str_in keyword
               (lower ucd u @ 32 # lower ucd (make_kid_friendly r))) unsafe_keywords"
    using str_in_append_left[of _ "lower ucd u" "32 # lower ucd (make_kid_friendly r)"]
    by (auto simp: list_ex_iff)
  then have "\<not> is_content_safe_for_kids ucd u (make_kid_friendly r)"
    by (simp add: is_content_safe_for_kids_def lower_combined)
  then show ?thesis by (simp add: sanitize_unfold)
qed

theorem unsafe_message_forces_fallback_witness:
  "(\<exists>keyword \<in> set unsafe_keywords. \<exists>p q.
      lower plain_db (cps ''Tell me about violence'') = p @ keyword @ q)
   \<and> sanitize plain_db (cps ''Tell me about violence'') (cps ''Violence is never okay'')
     = (fallback_response, False)"
proof -
  have "list_ex (\<lambda>keyword. str_in keyword (lower plain_db (cps ''Tell me about violence'')))
          unsafe_keywords"
    by (simp add: unsafe_keywords_def cps_def lower_def lower_cp_def)
  then have h: "\<exists>keyword \<in> set unsafe_keywords. \<exists>p q.
      lower plain_db (cps ''Tell me about violence'') = p @ keyword @ q"
    by (simp add: list_ex_iff str_in_iff)
  show ?thesis
    using h unsafe_message_forces_fallback[OF h, of "cps ''Violence is never okay''"] by simp
qed

section \<open>Simplifying twice\<close>














text \<open>
  A cascade does happen, and then a second pass changes the text: the replacement of
  \<open>sophisticated\<close> by \<open>smart\<close> completes the first term of the table.
\<close>

lemma cascade_example:
  "cascades (cps ''sophisticatedificial intelligence'')
   \<and> make_kid_friendly (cps ''sophisticatedificial intelligence'') = cps ''smartificial intelligence''
   \<and> make_kid_friendly (cps ''smartificial intelligence'') = cps ''smAI (like a smart computer)''"
  by (simp add: cascades_def make_kid_friendly_def replacements_def cps_def)




section \<open>The handler\<close>

lemma try_unconfigured:
  "key_unconfigured w \<Longrightarrow>
   send_chat_message_try w s input =
     (Inl (HTTPException 500 (Detail (cps ''API key not configured''))), s)"
  by (auto simp: key_unconfigured_def send_chat_message_try_def)

lemma try_provider_raises:
  "provider_result w input = Some (Inl e) \<Longrightarrow>
   \<exists>request. send_chat_message_try w s input =
     (Inl e, s\<lparr>llm_requests := llm_requests s @ [request]\<rparr>)"
  by (auto simp: provider_result_def send_chat_message_try_def Let_def
      split: option.splits if_splits)

lemma try_insert_raises:
  "provider_result w input = Some (Inr reply) \<Longrightarrow> insert_one_raises w = Some e \<Longrightarrow>
   \<exists>request. send_chat_message_try w s input =
     (Inl e, s\<lparr>llm_requests := llm_requests s @ [request]\<rparr>)"
  by (auto simp: provider_result_def send_chat_message_try_def Let_def
      split: option.splits if_splits prod.splits)

lemma try_update_raises:
  "provider_result w input = Some (Inr reply) \<Longrightarrow>
   insert_one_raises w = None \<Longrightarrow> update_one_raises w = Some e \<Longrightarrow>
   \<exists>request. send_chat_message_try w s input =
     (Inl e, s\<lparr>llm_requests := llm_requests s @ [request],
              chat_messages := chat_messages s @ [prepare_for_mongo (built_record w input reply)]\<rparr>)"
  by (auto simp: provider_result_def send_chat_message_try_def Let_def
      built_record_def split: option.splits if_splits prod.splits)

lemma try_returns:
  "provider_result w input = Some (Inr reply) \<Longrightarrow>
   insert_one_raises w = None \<Longrightarrow> update_one_raises w = None \<Longrightarrow>
   \<exists>request. send_chat_message_try w s input =
     (Inr (built_record w input reply),
      s\<lparr>llm_requests := llm_requests s @ [request],
        chat_messages := chat_messages s @ [prepare_for_mongo (built_record w input reply)],
        chat_sessions := inc_total_messages (chat_message_create.session_id input) (chat_sessions s)\<rparr>)"
  by (auto simp: provider_result_def send_chat_message_try_def Let_def
      built_record_def split: option.splits if_splits prod.splits)

lemma provider_result_None: "provider_result w input = None \<longleftrightarrow> key_unconfigured w"
  by (auto simp: provider_result_def key_unconfigured_def split: option.splits)

text \<open>The body of the \<open>try\<close> ends with the first exception that one of its calls raises,
  and with the record when none does.\<close>

lemma try_raise:
  assumes "first_raise w input = Some e"
  shows "\<exists>s'. send_chat_message_try w s input = (Inl e, s')
           \<and> error_log s' = error_log s
           \<and> length (llm_requests s') = Suc (length (llm_requests s))"
proof (cases "provider_result w input")
  case None
  then show ?thesis using assms by (simp add: first_raise_def)
next
  case (Some answer)
  show ?thesis
  proof (cases answer)
    case (Inl e')
    then have "e' = e" using assms Some by (simp add: first_raise_def)
    then obtain request where "send_chat_message_try w s input =
        (Inl e, s\<lparr>llm_requests := llm_requests s @ [request]\<rparr>)"
      using Some Inl try_provider_raises by blast
    then show ?thesis by simp
  next
    case (Inr reply)
    note ok = Some[unfolded Inr]
    show ?thesis
    proof (cases "insert_one_raises w")
      case (Some e')
      then have "e' = e" using assms ok by (simp add: first_raise_def)
      then obtain request where "send_chat_message_try w s input =
          (Inl e, s\<lparr>llm_requests := llm_requests s @ [request]\<rparr>)"
        using ok Some try_insert_raises by blast
      then show ?thesis by simp
    next
      case None
      then have "update_one_raises w = Some e" using assms ok by (simp add: first_raise_def)
      then obtain request where "send_chat_message_try w s input =
          (Inl e, s\<lparr>llm_requests := llm_requests s @ [request],
            chat_messages := chat_messages s @ [prepare_for_mongo (built_record w input reply)]\<rparr>)"
        using ok None try_update_raises by blast
      then show ?thesis by simp
    qed
  qed
qed

lemma try_no_raise:
  assumes "\<not> key_unconfigured w" and "first_raise w input = None"
  shows "\<exists>reply request. send_chat_message_try w s input =
     (Inr (built_record w input reply),
      s\<lparr>llm_requests := llm_requests s @ [request],
        chat_messages := chat_messages s @ [prepare_for_mongo (built_record w input reply)],
        chat_sessions :=
          inc_total_messages (chat_message_create.session_id input) (chat_sessions s)\<rparr>)"
proof -
  obtain answer where some: "provider_result w input = Some answer"
    using assms(1) provider_result_None[of w input] by (cases "provider_result w input") auto
  then obtain reply where ok: "provider_result w input = Some (Inr reply)"
    using assms(2) by (cases answer) (simp_all add: first_raise_def)
  have "insert_one_raises w = None" "update_one_raises w = None"
    using assms(2) ok by (simp_all add: first_raise_def split: option.splits)
  then show ?thesis using ok try_returns by blast
qed

lemma first_raise_unconfigured: "key_unconfigured w \<Longrightarrow> first_raise w input = None"
  using provider_result_None[of w input] by (simp add: first_raise_def)

text \<open>
  C8, as the code has it. For every request: with the provider key missing or empty the
  handler answers with an HTTP 500; when the provider call, \<open>insert_one\<close> or
  \<open>update_one\<close> raises an exception of the class \<open>Exception\<close>, it answers with an HTTP
  500 that carries it; when one of them raises anything else, as the cancellation of an
  \<open>await\<close>, that exception leaves the handler as it is, with nothing logged; and when
  none raises, the handler returns the record, which is the one it has inserted into
  \<open>chat_messages\<close>. It asks the provider once when the key is configured and never
  otherwise: there is no retry.
\<close>

theorem send_chat_message_outcome:
  "(key_unconfigured w \<longrightarrow>
      fst (send_chat_message w s input)
        = Inl (HTTPException 500 (Failed_to_process
            (HTTPException 500 (Detail (cps ''API key not configured''))))))
   \<and> (first_raise w input = Some e \<and> isinstance_Exception e \<longrightarrow>
      fst (send_chat_message w s input) = Inl (HTTPException 500 (Failed_to_process e)))
   \<and> (first_raise w input = Some e \<and> \<not> isinstance_Exception e \<longrightarrow>
      fst (send_chat_message w s input) = Inl e
      \<and> error_log (snd (send_chat_message w s input)) = error_log s)
   \<and> (\<not> key_unconfigured w \<and> first_raise w input = None \<longrightarrow>
      (\<exists>m. fst (send_chat_message w s input) = Inr m
         \<and> chat_messages (snd (send_chat_message w s input))
             = chat_messages s @ [prepare_for_mongo m]))
   \<and> length (llm_requests (snd (send_chat_message w s input)))
       = length (llm_requests s) + (if key_unconfigured w then 0 else 1)"
proof (cases "key_unconfigured w")
  case True
  then show ?thesis
    by (simp add: send_chat_message_def try_unconfigured first_raise_unconfigured)
next
  case False
  show ?thesis
  proof (cases "first_raise w input")
    case None
    then obtain reply request where "send_chat_message_try w s input =
     (Inr (built_record w input reply),
      s\<lparr>llm_requests := llm_requests s @ [request],
        chat_messages := chat_messages s @ [prepare_for_mongo (built_record w input reply)],
        chat_sessions :=
          inc_total_messages (chat_message_create.session_id input) (chat_sessions s)\<rparr>)"
      using try_no_raise[OF False] by blast
    then show ?thesis using False None by (simp add: send_chat_message_def)
  next
    case (Some e')
    then obtain s' where "send_chat_message_try w s input = (Inl e', s')"
      "error_log s' = error_log s" "length (llm_requests s') = Suc (length (llm_requests s))"
      using try_raise by blast
    then show ?thesis using False Some by (simp add: send_chat_message_def)
  qed
qed

theorem send_chat_message_outcome_witness:
  "fst (send_chat_message no_key_world example_state example_input)
     = Inl (HTTPException 500 (Failed_to_process
         (HTTPException 500 (Detail (cps ''API key not configured'')))))
   \<and> fst (send_chat_message store_down_world example_state example_input)
     = Inl (HTTPException 500 (Failed_to_process (Exception (cps ''connection refused''))))
   \<and> fst (send_chat_message cancelled_world example_state example_input)
     = Inl (BaseException (cps ''CancelledError''))
   \<and> error_log (snd (send_chat_message cancelled_world example_state example_input)) = []
   \<and> (\<exists>m. fst (send_chat_message example_world example_state example_input) = Inr m
        \<and> chat_messages (snd (send_chat_message example_world example_state example_input))
            = chat_messages example_state @ [prepare_for_mongo m])"
proof -
  have no_key: "key_unconfigured no_key_world"
    by (simp add: key_unconfigured_def no_key_world_def)
  have down: "first_raise store_down_world example_input
                = Some (Exception (cps ''connection refused''))
              \<and> isinstance_Exception (Exception (cps ''connection refused''))"
    by (simp add: first_raise_def provider_result_def store_down_world_def example_world_def
        cps_def)
  have cancelled: "first_raise cancelled_world example_input
                     = Some (BaseException (cps ''CancelledError''))
                   \<and> \<not> isinstance_Exception (BaseException (cps ''CancelledError''))"
    by (simp add: first_raise_def provider_result_def cancelled_world_def example_world_def
        cps_def)
  have up: "\<not> key_unconfigured example_world \<and> first_raise example_world example_input = None"
    by (simp add: key_unconfigured_def first_raise_def provider_result_def example_world_def
        cps_def)
  have empty: "error_log example_state = []"
    by (simp add: example_state_def)
  show ?thesis
    using no_key down cancelled up empty
      send_chat_message_outcome[where w = no_key_world and s = example_state
        and input = example_input]
      send_chat_message_outcome[where w = store_down_world and s = example_state
        and input = example_input and e = "Exception (cps ''connection refused'')"]
      send_chat_message_outcome[where w = cancelled_world and s = example_state
        and input = example_input and e = "BaseException (cps ''CancelledError'')"]
      send_chat_message_outcome[where w = example_world and s = example_state
        and input = example_input]
    by simp
qed

text \<open>
  C8, as the claim has it, fails: with the key configured and a reply from the provider,
  a store that refuses the insert makes the handler answer with a 500, not with the
  record.
\<close>

theorem record_not_always_returned:
  "\<not> key_unconfigured store_down_world
   \<and> provider_result store_down_world example_input
       = Some (Inr (cps ''Computers do processing''))
   \<and> fst (send_chat_message store_down_world example_state example_input)
       = Inl (HTTPException 500 (Failed_to_process (Exception (cps ''connection refused''))))"
  by (simp add: key_unconfigured_def provider_result_def store_down_world_def
      example_world_def send_chat_message_def send_chat_message_try_def Let_def cps_def
      split: prod.splits)

end
